theory Spec2Isabelle
  imports Main
begin

section \<open>Python and framework objects\<close>

text \<open>
  The module \<open>django_typomatic/__init__.py\<close> works on classes of the host framework
  (Django REST framework) and on field instances of serializers. The framework is not
  part of the repository; the model keeps of it exactly what the module reads:
  \<^item> of a class: its identity, its \<open>__name__\<close>, which of the three framework base classes
    tested by \<open>issubclass\<close> are among its ancestors, the items of \<open>_declared_fields\<close>
    and the items of \<open>cls().get_fields()\<close> (read for model serializers only);
  \<^item> of a field instance: its class (\<open>type(field)\<close>) and its attribute \<open>child\<close>, when it
    has one (\<open>hasattr(field, 'child')\<close>).
  Python compares classes by identity; \<open>cls_id\<close> stands for it.
\<close>

datatype drf_base = DrfField | DrfSerializer | DrfModelSerializer

datatype pyclass =
  PyClass (cls_id: nat) (cls_name: string) (cls_bases: "drf_base list")
          (declared_fields: "(string \<times> field) list") (get_fields: "(string \<times> field) list")
and field =
  Field (py_type: pyclass) (child: "field option")

text \<open>What a decorator is applied to: a class, or some other object (a function, say).\<close>

datatype pyobj = ClassObj pyclass | NonClassObj

datatype error = KeyError | TypeError | OSError

definition issubclass :: "pyclass \<Rightarrow> drf_base \<Rightarrow> bool" where
  "issubclass cls b = (b \<in> set (cls_bases cls))"

abbreviation NL :: string where
  "NL \<equiv> [CHR 0x0A]"

section \<open>The registry: the three module-level dictionaries\<close>

text \<open>
  \<open>__serializers\<close> is iterated by \<open>generate_ts\<close>, so its insertion order matters: it is an
  association list, keys in order of first insertion. The other two dictionaries are only
  looked up: they are maps. A \<open>mapping_overrides\<close> argument is a dictionary from field
  names to type strings, kept as the list of its items.
\<close>

record registry =
  serializers :: "(string \<times> pyclass list) list"
  field_mappings :: "string \<rightharpoonup> (pyclass \<rightharpoonup> string)"
  mapping_overrides :: "string \<rightharpoonup> (pyclass \<rightharpoonup> (string \<times> string) list)"

definition empty_registry :: registry where
  "empty_registry = \<lparr>serializers = [], field_mappings = Map.empty, mapping_overrides = Map.empty\<rparr>"

definition default_context :: string where
  "default_context = ''default''"

text \<open>\<open>d[k].append(c)\<close> on an insertion-ordered dictionary of lists.\<close>

fun append_at :: "string \<Rightarrow> 'a \<Rightarrow> (string \<times> 'a list) list \<Rightarrow> (string \<times> 'a list) list" where
  "append_at k c [] = []"
| "append_at k c ((k', v) # rest) =
     (if k' = k then (k', v @ [c]) # rest else (k', v) # append_at k c rest)"

text \<open>\<open>d.get(k, default)\<close>.\<close>

definition dict_get :: "('k \<rightharpoonup> 'v) \<Rightarrow> 'k \<Rightarrow> 'v \<Rightarrow> 'v" where
  "dict_get d k dflt = (case d k of Some v \<Rightarrow> v | None \<Rightarrow> dflt)"

section \<open>The decorators\<close>

text \<open>
  \<open>ts_field(ts_type, context)\<close> returns a decorator; the model takes the decorated object and
  the registry as two more arguments and returns the decorator's result with the registry
  after the call. \<open>issubclass\<close> raises \<open>TypeError\<close> when its first argument is not a class.
\<close>

definition ts_field :: "string \<Rightarrow> string \<Rightarrow> pyobj \<Rightarrow> registry \<Rightarrow> error + (registry \<times> pyobj)" where
  "ts_field ts_type context obj reg =
     (case obj of
        NonClassObj \<Rightarrow> Inl TypeError
      | ClassObj cls \<Rightarrow>
          if issubclass cls DrfField then
            let fm0 = field_mappings reg;
                fm1 = (if fm0 context = None then fm0(context \<mapsto> Map.empty) else fm0);
                fm2 = (case fm1 context of
                         None \<Rightarrow> fm1
                       | Some inner \<Rightarrow>
                           if inner cls = None then fm1(context \<mapsto> inner(cls \<mapsto> ts_type))
                           else fm1)
            in Inr (reg\<lparr>field_mappings := fm2\<rparr>, obj)
          else Inr (reg, obj))"

definition ts_interface ::
  "string \<Rightarrow> (string \<times> string) list option \<Rightarrow> pyobj \<Rightarrow> registry \<Rightarrow> error + (registry \<times> pyobj)" where
  "ts_interface context overrides obj reg =
     (case obj of
        NonClassObj \<Rightarrow> Inl TypeError
      | ClassObj cls \<Rightarrow>
          if issubclass cls DrfSerializer then
            let s0 = serializers reg;
                s1 = (if map_of s0 context = None then s0 @ [(context, [])] else s0);
                s2 = append_at context cls s1;
                mo0 = mapping_overrides reg;
                mo2 = (case overrides of
                         None \<Rightarrow> mo0
                       | Some d \<Rightarrow>
                           if d = [] then mo0
                           else
                             let mo1 = (if mo0 context = None then mo0(context \<mapsto> Map.empty)
                                        else mo0)
                             in (case mo1 context of
                                   None \<Rightarrow> mo1
                                 | Some inner \<Rightarrow>
                                     if inner cls = None then mo1(context \<mapsto> inner(cls \<mapsto> d))
                                     else mo1))
            in Inr (reg\<lparr>serializers := s2, mapping_overrides := mo2\<rparr>, obj)
          else Inr (reg, obj))"

section \<open>Interface names\<close>

definition ends_with :: "string \<Rightarrow> string \<Rightarrow> bool" where
  "ends_with s sfx = (length sfx \<le> length s \<and> drop (length s - length sfx) s = sfx)"

text \<open>
  \<open>re.sub('Serializer$', '', name)\<close>. Without the MULTILINE flag \<open>$\<close> matches at the end of
  the string and also just before a newline that ends the string, so there is at most one
  match: the \<open>Serializer\<close> that ends the name, or the one before a final newline.
\<close>

definition re_sub_Serializer :: "string \<Rightarrow> string" where
  "re_sub_Serializer name =
     (if ends_with name ''Serializer'' then take (length name - 10) name
      else if ends_with name (''Serializer'' @ NL) then take (length name - 11) name @ NL
      else name)"

definition get_interface_name :: "string \<Rightarrow> string \<Rightarrow> string \<Rightarrow> string" where
  "get_interface_name name prefix suffix = prefix @ re_sub_Serializer name @ suffix"

section \<open>Resolving one field\<close>

text \<open>
  \<open>mappings\<close> is the table imported from the module \<open>.mappings\<close>, from framework field
  classes to type strings; it is a parameter of the model. The subscription
  \<open>__serializers[context]\<close> raises \<open>KeyError\<close> for a context that is no key.
\<close>

definition process_field ::
  "(pyclass \<rightharpoonup> string) \<Rightarrow> string \<Rightarrow> field \<Rightarrow> string \<Rightarrow> pyclass \<Rightarrow> string \<Rightarrow> string \<Rightarrow> registry
     \<Rightarrow> error + (string \<times> string)" where
  "process_field mappings field_name fld context serializer prefix suffix reg =
     (let is_many = (child fld \<noteq> None);
          field_type = (case child fld of Some c \<Rightarrow> py_type c | None \<Rightarrow> py_type fld)
      in case map_of (serializers reg) context of
           None \<Rightarrow> Inl KeyError
         | Some registered \<Rightarrow>
             let ts_type =
               (if field_type \<in> set registered then
                  get_interface_name (cls_name field_type) prefix suffix
                else if (case map_of (serializers reg) default_context of
                           None \<Rightarrow> False | Some dflt \<Rightarrow> field_type \<in> set dflt) then
                  get_interface_name (cls_name field_type) prefix suffix
                else if (case field_mappings reg context of
                           None \<Rightarrow> False | Some fm \<Rightarrow> fm field_type \<noteq> None) then
                  (case field_mappings reg context of
                     None \<Rightarrow> ''any'' | Some fm \<Rightarrow> dict_get fm field_type ''any'')
                else if (case field_mappings reg default_context of
                           None \<Rightarrow> False | Some fm \<Rightarrow> fm field_type \<noteq> None) then
                  (case field_mappings reg default_context of
                     None \<Rightarrow> ''any'' | Some fm \<Rightarrow> dict_get fm field_type ''any'')
                else if (case mapping_overrides reg context of
                           None \<Rightarrow> False
                         | Some per_cls \<Rightarrow>
                             (case per_cls serializer of
                                None \<Rightarrow> False
                              | Some d \<Rightarrow> map_of d field_name \<noteq> None)) then
                  (case mapping_overrides reg context of
                     None \<Rightarrow> ''any''
                   | Some per_cls \<Rightarrow>
                       (case per_cls serializer of
                          None \<Rightarrow> ''any''
                        | Some d \<Rightarrow> dict_get (map_of d) field_name ''any''))
                else dict_get mappings field_type ''any'')
             in Inr (field_name, if is_many then ts_type @ ''[]'' else ts_type))"

section \<open>Rendering one serializer\<close>

text \<open>\<open>sep.join(xs)\<close>.\<close>

fun join :: "string \<Rightarrow> string list \<Rightarrow> string" where
  "join sep [] = []"
| "join sep [x] = x"
| "join sep (x # y # ys) = x @ sep @ join sep (y # ys)"

text \<open>
  The field items the loop of \<open>__get_ts_interface\<close> runs over: those of an instance's
  \<open>get_fields()\<close> for a model serializer, the declared ones otherwise. The function is
  called on the classes of \<open>__serializers\<close> only, which \<open>ts_interface\<close> fills with
  serializer classes; the framework gives every one of them \<open>_declared_fields\<close>.
\<close>

definition serializer_fields :: "pyclass \<Rightarrow> (string \<times> field) list" where
  "serializer_fields serializer =
     (if issubclass serializer DrfModelSerializer then get_fields serializer
      else declared_fields serializer)"

text \<open>
  The \<open>for key, value in fields\<close> loop, with its two accumulators \<open>ts_fields\<close> and
  \<open>ts_indexable_types\<close>; an exception of \<open>__process_field\<close> leaves the loop.
\<close>

fun fields_loop ::
  "(pyclass \<rightharpoonup> string) \<Rightarrow> string \<Rightarrow> pyclass \<Rightarrow> string \<Rightarrow> string \<Rightarrow> registry
     \<Rightarrow> (string \<times> field) list \<Rightarrow> string list \<Rightarrow> string list
     \<Rightarrow> error + (string list \<times> string list)" where
  "fields_loop mappings context serializer prefix suffix reg [] ts_fields ts_indexable_types =
     Inr (ts_fields, ts_indexable_types)"
| "fields_loop mappings context serializer prefix suffix reg ((key, val) # rest)
       ts_fields ts_indexable_types =
     (case process_field mappings key val context serializer prefix suffix reg of
        Inl e \<Rightarrow> Inl e
      | Inr ts_fld \<Rightarrow>
          fields_loop mappings context serializer prefix suffix reg rest
            (ts_fields @ [''    '' @ fst ts_fld @ '': '' @ snd ts_fld @ '';''])
            (if snd ts_fld \<notin> set ts_indexable_types then ts_indexable_types @ [snd ts_fld]
             else ts_indexable_types))"

definition get_ts_interface ::
  "(pyclass \<rightharpoonup> string) \<Rightarrow> pyclass \<Rightarrow> string \<Rightarrow> string \<Rightarrow> string \<Rightarrow> registry \<Rightarrow> error + string" where
  "get_ts_interface mappings serializer context ts_interface_prefix ts_interface_suffix reg =
     (case fields_loop mappings context serializer ts_interface_prefix ts_interface_suffix reg
             (serializer_fields serializer) [] [] of
        Inl e \<Rightarrow> Inl e
      | Inr (ts_fields, ts_indexable_types) \<Rightarrow>
          let collapsed_fields = join NL ts_fields;
              ts_indexable_type = join '' | '' ts_indexable_types;
              name = get_interface_name (cls_name serializer) ts_interface_prefix
                       ts_interface_suffix;
              indexable_type_str = ''    [x: string]: '' @ ts_indexable_type @ '';''
          in Inr (''  export interface '' @ name @ '' {'' @ NL @ indexable_type_str @ NL
                  @ collapsed_fields @ NL @ ''  }'' @ NL @ NL))"

section \<open>Writing the output file\<close>

text \<open>
  The file system as far as \<open>generate_ts\<close> touches it: the contents of the files, and
  which paths \<open>open(path, 'w')\<close> can open (it raises \<open>OSError\<close> on the others). Opening
  for writing truncates the file or creates it empty; \<open>write\<close> appends to it.
\<close>

record filesystem =
  files :: "string \<rightharpoonup> string"
  can_open :: "string \<Rightarrow> bool"

definition fs_write :: "string \<Rightarrow> string \<Rightarrow> filesystem \<Rightarrow> filesystem" where
  "fs_write path txt fs = fs\<lparr>files := (files fs)(path \<mapsto> dict_get (files fs) path [] @ txt)\<rparr>"

text \<open>The list comprehension that renders the serializers of one context.\<close>

fun interfaces_of ::
  "(pyclass \<rightharpoonup> string) \<Rightarrow> string \<Rightarrow> string \<Rightarrow> string \<Rightarrow> registry \<Rightarrow> pyclass list
     \<Rightarrow> error + string list" where
  "interfaces_of mappings declared_context prefix suffix reg [] = Inr []"
| "interfaces_of mappings declared_context prefix suffix reg (serializer # rest) =
     (case get_ts_interface mappings serializer declared_context prefix suffix reg of
        Inl e \<Rightarrow> Inl e
      | Inr block \<Rightarrow>
          (case interfaces_of mappings declared_context prefix suffix reg rest of
             Inl e \<Rightarrow> Inl e
           | Inr blocks \<Rightarrow> Inr (block # blocks)))"

text \<open>
  The \<open>for declared_context in __serializers\<close> loop over the keys; the result is the
  exception that ended it, if any, and the file system as the writes left it.
\<close>

fun contexts_loop ::
  "(pyclass \<rightharpoonup> string) \<Rightarrow> string \<Rightarrow> string \<Rightarrow> string \<Rightarrow> string \<Rightarrow> bool \<Rightarrow> registry
     \<Rightarrow> string list \<Rightarrow> filesystem \<Rightarrow> error option \<times> filesystem" where
  "contexts_loop mappings output_path context prefix suffix all_contexts reg [] fs = (None, fs)"
| "contexts_loop mappings output_path context prefix suffix all_contexts reg
       (declared_context # rest) fs =
     (if all_contexts \<or> context = declared_context then
        (case map_of (serializers reg) declared_context of
           None \<Rightarrow> (Some KeyError, fs)
         | Some registered \<Rightarrow>
             (case interfaces_of mappings declared_context prefix suffix reg registered of
                Inl e \<Rightarrow> (Some e, fs)
              | Inr interfaces \<Rightarrow>
                  contexts_loop mappings output_path context prefix suffix all_contexts reg rest
                    (fs_write output_path ''}''
                      (fs_write output_path (concat interfaces)
                        (fs_write output_path
                          (NL @ ''declare namespace '' @ declared_context @ '' {'' @ NL @ NL)
                          fs)))))
      else contexts_loop mappings output_path context prefix suffix all_contexts reg rest fs)"

definition generate_ts ::
  "(pyclass \<rightharpoonup> string) \<Rightarrow> string \<Rightarrow> string \<Rightarrow> string \<Rightarrow> string \<Rightarrow> bool \<Rightarrow> registry
     \<Rightarrow> filesystem \<Rightarrow> error option \<times> filesystem" where
  "generate_ts mappings output_path context ts_interface_prefix ts_interface_suffix
       all_contexts reg fs =
     (if can_open fs output_path then
        contexts_loop mappings output_path context ts_interface_prefix ts_interface_suffix
          all_contexts reg (map fst (serializers reg))
          (fs\<lparr>files := (files fs)(output_path \<mapsto> [])\<rparr>)
      else (Some OSError, fs))"

section \<open>The specification's reading of resolution, rendering and emission\<close>

text \<open>
  The definitions of this section follow the wording of the specification, not the code;
  the theorems below compare the two. First the vocabulary of the resolver: the base kind
  of a field (the child's kind for a collection field), the array notation, and the three
  look-ups of the registry that the tiers consult.
\<close>

definition base_kind :: "field \<Rightarrow> pyclass" where
  "base_kind fld = (case child fld of Some c \<Rightarrow> py_type c | None \<Rightarrow> py_type fld)"

definition array_suffix :: "field \<Rightarrow> string" where
  "array_suffix fld = (if child fld = None then [] else ''[]'')"

definition registered_in :: "registry \<Rightarrow> string \<Rightarrow> pyclass \<Rightarrow> bool" where
  "registered_in reg context kind =
     (case map_of (serializers reg) context of None \<Rightarrow> False | Some ss \<Rightarrow> kind \<in> set ss)"

definition kind_override :: "registry \<Rightarrow> string \<Rightarrow> pyclass \<Rightarrow> string option" where
  "kind_override reg context kind =
     (case field_mappings reg context of None \<Rightarrow> None | Some fm \<Rightarrow> fm kind)"

definition name_override :: "registry \<Rightarrow> string \<Rightarrow> pyclass \<Rightarrow> string \<Rightarrow> string option" where
  "name_override reg context owner field_name =
     (case mapping_overrides reg context of
        None \<Rightarrow> None
      | Some per_cls \<Rightarrow> (case per_cls owner of None \<Rightarrow> None | Some d \<Rightarrow> map_of d field_name))"

text \<open>
  Tiers 2 to 7 of the fallback chain, first match wins: a schema of the current context,
  a schema of the default context, a kind override of the current context, a kind override
  of the default context, a name override of the owning schema, the static table.
\<close>

definition spec_tiers ::
  "(pyclass \<rightharpoonup> string) \<Rightarrow> string \<Rightarrow> pyclass \<Rightarrow> string \<Rightarrow> pyclass \<Rightarrow> string \<Rightarrow> string \<Rightarrow> registry
     \<Rightarrow> string" where
  "spec_tiers mappings field_name kind context owner prefix suffix reg =
     (if registered_in reg context kind then get_interface_name (cls_name kind) prefix suffix
      else if registered_in reg default_context kind then
        get_interface_name (cls_name kind) prefix suffix
      else case kind_override reg context kind of Some t \<Rightarrow> t | None \<Rightarrow>
           (case kind_override reg default_context kind of Some t \<Rightarrow> t | None \<Rightarrow>
           (case name_override reg context owner field_name of Some t \<Rightarrow> t | None \<Rightarrow>
            dict_get mappings kind ''any'')))"

definition spec_resolve ::
  "(pyclass \<rightharpoonup> string) \<Rightarrow> string \<Rightarrow> field \<Rightarrow> string \<Rightarrow> pyclass \<Rightarrow> string \<Rightarrow> string \<Rightarrow> registry
     \<Rightarrow> string" where
  "spec_resolve mappings field_name fld context owner prefix suffix reg =
     spec_tiers mappings field_name (base_kind fld) context owner prefix suffix reg
       @ array_suffix fld"

text \<open>Deduplication in first-seen order: keep an element, drop its later occurrences.\<close>

fun first_seen :: "'a list \<Rightarrow> 'a list" where
  "first_seen [] = []"
| "first_seen (x # xs) = x # first_seen (removeAll x xs)"

text \<open>The naming rule: one trailing \<open>Serializer\<close> is stripped from the declared name.\<close>

definition spec_strip_Serializer :: "string \<Rightarrow> string" where
  "spec_strip_Serializer name =
     (if ends_with name ''Serializer'' then take (length name - length ''Serializer'') name
      else name)"

text \<open>
  The renderer and the emitter as the specification describes them: one line per field,
  the index signature over the deduplicated resolved types, one namespace block per
  emitted context, in the order of the contexts' first registration.
\<close>

definition spec_field_line :: "string \<Rightarrow> string \<Rightarrow> string" where
  "spec_field_line field_name ts_type = ''    '' @ field_name @ '': '' @ ts_type @ '';''"

definition spec_resolved_types ::
  "(pyclass \<rightharpoonup> string) \<Rightarrow> pyclass \<Rightarrow> string \<Rightarrow> string \<Rightarrow> string \<Rightarrow> registry \<Rightarrow> string list" where
  "spec_resolved_types mappings schema context prefix suffix reg =
     map (\<lambda>(field_name, fld).
            spec_resolve mappings field_name fld context schema prefix suffix reg)
         (serializer_fields schema)"

definition spec_index_signature :: "string list \<Rightarrow> string" where
  "spec_index_signature types = ''    [x: string]: '' @ join '' | '' (first_seen types) @ '';''"

definition spec_field_lines ::
  "(pyclass \<rightharpoonup> string) \<Rightarrow> pyclass \<Rightarrow> string \<Rightarrow> string \<Rightarrow> string \<Rightarrow> registry \<Rightarrow> string" where
  "spec_field_lines mappings schema context prefix suffix reg =
     join NL (map (\<lambda>(field_name, fld).
                     spec_field_line field_name
                       (spec_resolve mappings field_name fld context schema prefix suffix reg))
                  (serializer_fields schema))"

definition spec_body ::
  "(pyclass \<rightharpoonup> string) \<Rightarrow> pyclass \<Rightarrow> string \<Rightarrow> string \<Rightarrow> string \<Rightarrow> registry \<Rightarrow> string" where
  "spec_body mappings schema context prefix suffix reg =
     spec_index_signature (spec_resolved_types mappings schema context prefix suffix reg) @ NL
     @ spec_field_lines mappings schema context prefix suffix reg @ NL
     @ ''  }'' @ NL @ NL"

definition spec_render ::
  "(pyclass \<rightharpoonup> string) \<Rightarrow> pyclass \<Rightarrow> string \<Rightarrow> string \<Rightarrow> string \<Rightarrow> registry \<Rightarrow> string" where
  "spec_render mappings schema context prefix suffix reg =
     ''  export interface '' @ get_interface_name (cls_name schema) prefix suffix @ '' {'' @ NL
     @ spec_body mappings schema context prefix suffix reg"

definition spec_namespace ::
  "(pyclass \<rightharpoonup> string) \<Rightarrow> string \<Rightarrow> string \<Rightarrow> string \<Rightarrow> registry \<Rightarrow> string" where
  "spec_namespace mappings context prefix suffix reg =
     NL @ ''declare namespace '' @ context @ '' {'' @ NL @ NL
     @ concat (map (\<lambda>schema. spec_render mappings schema context prefix suffix reg)
                (case map_of (serializers reg) context of None \<Rightarrow> [] | Some ss \<Rightarrow> ss))
     @ ''}''"

definition spec_emit ::
  "(pyclass \<rightharpoonup> string) \<Rightarrow> string \<Rightarrow> string \<Rightarrow> string \<Rightarrow> bool \<Rightarrow> registry \<Rightarrow> string" where
  "spec_emit mappings context prefix suffix all_contexts reg =
     concat (map (\<lambda>declared_context. spec_namespace mappings declared_context prefix suffix reg)
              (filter (\<lambda>declared_context. all_contexts \<or> context = declared_context)
                 (map fst (serializers reg))))"

section \<open>Example objects\<close>

text \<open>
  Framework field classes, two serializers and a class that is neither, used to run the
  theorems below on concrete inputs.
\<close>

definition ex_IntegerField :: pyclass where
  "ex_IntegerField = PyClass 1 ''IntegerField'' [DrfField] [] []"

definition ex_CharField :: pyclass where
  "ex_CharField = PyClass 2 ''CharField'' [DrfField] [] []"

definition ex_ListField :: pyclass where
  "ex_ListField = PyClass 3 ''ListField'' [DrfField] [] []"

definition ex_mappings :: "pyclass \<rightharpoonup> string" where
  "ex_mappings = [ex_IntegerField \<mapsto> ''number'', ex_CharField \<mapsto> ''string'']"

definition ex_AddressSerializer :: pyclass where
  "ex_AddressSerializer =
     PyClass 4 ''AddressSerializer'' [DrfField, DrfSerializer]
       [(''street'', Field ex_CharField None)] []"

definition ex_UserSerializer :: pyclass where
  "ex_UserSerializer =
     PyClass 5 ''UserSerializer'' [DrfField, DrfSerializer]
       [(''id'', Field ex_IntegerField None),
        (''tags'', Field ex_ListField (Some (Field ex_CharField None)))] []"

definition ex_Plain :: pyclass where
  "ex_Plain = PyClass 6 ''Plain'' [] [] []"

definition ex_fs :: filesystem where
  "ex_fs = \<lparr>files = [''out.ts'' \<mapsto> ''stale''], can_open = (\<lambda>path. True)\<rparr>"

definition ex_reg_user :: registry where
  "ex_reg_user = \<lparr>serializers = [(''default'', [ex_UserSerializer])],
                   field_mappings = Map.empty, mapping_overrides = Map.empty\<rparr>"

definition ex_reg_nested :: registry where
  "ex_reg_nested =
     \<lparr>serializers = [(''default'', [ex_AddressSerializer, ex_UserSerializer])],
      field_mappings =
        [''default'' \<mapsto> [ex_AddressSerializer \<mapsto> ''object'', ex_CharField \<mapsto> ''Text'']],
      mapping_overrides =
        [''default'' \<mapsto>
           [ex_UserSerializer \<mapsto> [(''address'', ''string''), (''tags'', ''Tag'')]]]\<rparr>"

definition ex_reg_empty_type :: registry where
  "ex_reg_empty_type =
     \<lparr>serializers = [(''default'', [ex_UserSerializer])],
      field_mappings = [''default'' \<mapsto> [ex_IntegerField \<mapsto> []]],
      mapping_overrides = Map.empty\<rparr>"

definition ex_QuadSerializer :: pyclass where
  "ex_QuadSerializer =
     PyClass 7 ''QuadSerializer'' [DrfField, DrfSerializer]
       [(''a'', Field ex_IntegerField None), (''b'', Field ex_CharField None),
        (''c'', Field ex_IntegerField None), (''d'', Field ex_ListField None)] []"

definition ex_reg_user_twice :: registry where
  "ex_reg_user_twice =
     \<lparr>serializers = [(''default'', [ex_UserSerializer, ex_UserSerializer])],
      field_mappings = Map.empty, mapping_overrides = Map.empty\<rparr>"

definition ex_EmptySerializer :: pyclass where
  "ex_EmptySerializer = PyClass 8 ''EmptySerializer'' [DrfField, DrfSerializer] [] []"

definition ex_reg_empty_schema :: registry where
  "ex_reg_empty_schema =
     \<lparr>serializers = [(''default'', [ex_EmptySerializer])],
      field_mappings = Map.empty, mapping_overrides = Map.empty\<rparr>"

section \<open>The code refines the specification's reading\<close>

text \<open>
  In a context that is a key of \<open>__serializers\<close> the resolver raises nothing and returns
  what the tier chain gives; the loop of the renderer then computes the field lines and,
  in its second accumulator, the resolved types in first-seen order.
\<close>

lemma process_field_registered:
  assumes "map_of (serializers reg) context = Some ss"
  shows "process_field mappings field_name fld context owner prefix suffix reg =
           Inr (field_name, spec_resolve mappings field_name fld context owner prefix suffix reg)"
proof -
  have "child fld = None \<or> (\<exists>c. child fld = Some c)" by (cases "child fld") simp_all
  then show ?thesis
    using assms
    by (cases "field_mappings reg context"; cases "field_mappings reg default_context";
        cases "mapping_overrides reg context"; cases "map_of (serializers reg) default_context")
       (auto simp: process_field_def spec_resolve_def spec_tiers_def registered_in_def
          kind_override_def name_override_def base_kind_def array_suffix_def dict_get_def
          split: option.split)
qed

lemma fields_loop_registered:
  assumes "map_of (serializers reg) context = Some ss"
  shows "fields_loop mappings context schema prefix suffix reg flds ts_flds idx =
           Inr (ts_flds @ map (\<lambda>(k, v). spec_field_line k
                                   (spec_resolve mappings k v context schema prefix suffix reg)) flds,
                fold (\<lambda>t acc. if t \<notin> set acc then acc @ [t] else acc)
                     (map (\<lambda>(k, v). spec_resolve mappings k v context schema prefix suffix reg) flds)
                     idx)"
proof (induction flds arbitrary: ts_flds idx)
  case Nil
  show ?case by simp
next
  case (Cons kv flds)
  obtain k v where kv: "kv = (k, v)" by (cases kv)
  show ?case
    unfolding kv
    by (simp add: process_field_registered[OF assms] Cons.IH spec_field_line_def)
qed

lemma fold_first_seen:
  "distinct acc \<Longrightarrow>
   fold (\<lambda>t acc. if t \<notin> set acc then acc @ [t] else acc) ts acc
     = acc @ first_seen (filter (\<lambda>t. t \<notin> set acc) ts)"
proof (induction ts arbitrary: acc)
  case Nil
  show ?case by simp
next
  case (Cons t ts)
  show ?case
  proof (cases "t \<in> set acc")
    case True
    with Cons show ?thesis by simp
  next
    case False
    have d: "distinct (acc @ [t])" using Cons.prems False by simp
    have f: "filter (\<lambda>u. u \<notin> set (acc @ [t])) ts = removeAll t (filter (\<lambda>u. u \<notin> set acc) ts)"
      by (induction ts) auto
    show ?thesis using False Cons.IH[OF d] f by simp
  qed
qed

lemma get_ts_interface_registered:
  assumes "map_of (serializers reg) context = Some ss"
  shows "get_ts_interface mappings schema context prefix suffix reg =
           Inr (spec_render mappings schema context prefix suffix reg)"
  by (simp add: get_ts_interface_def fields_loop_registered[OF assms] fold_first_seen
      spec_render_def spec_body_def spec_index_signature_def spec_resolved_types_def
      spec_field_lines_def)

text \<open>
  Registration by \<open>ts_interface\<close>: the class goes to the end of the list of its context,
  a context registered for the first time goes to the end of the keys, and the lists of
  the other contexts stay as they are.
\<close>

lemma map_of_append_at:
  "map_of (append_at k c s) k' =
     (if k' = k then map_option (\<lambda>l. l @ [c]) (map_of s k) else map_of s k')"
  by (induction s) auto

lemma keys_append_at: "map fst (append_at k c s) = map fst s"
  by (induction s) auto

lemma ts_interface_serializers:
  assumes "issubclass cls DrfSerializer"
  shows "\<exists>reg'. ts_interface context overrides (ClassObj cls) reg = Inr (reg', ClassObj cls)
           \<and> map_of (serializers reg') context
               = Some ((case map_of (serializers reg) context of None \<Rightarrow> [] | Some l \<Rightarrow> l) @ [cls])
           \<and> (\<forall>c. c \<noteq> context \<longrightarrow> map_of (serializers reg') c = map_of (serializers reg) c)
           \<and> map fst (serializers reg')
               = (if map_of (serializers reg) context = None
                  then map fst (serializers reg) @ [context] else map fst (serializers reg))"
proof (cases "map_of (serializers reg) context")
  case None
  then show ?thesis
    using assms
    by (auto simp: ts_interface_def Let_def map_of_append_at keys_append_at map_add_def
        split: option.splits)
next
  case (Some l)
  then show ?thesis
    using assms
    by (simp add: ts_interface_def Let_def map_of_append_at keys_append_at)
qed

lemma interfaces_of_registered:
  assumes "map_of (serializers reg) context = Some ss"
  shows "interfaces_of mappings context prefix suffix reg xs =
           Inr (map (\<lambda>schema. spec_render mappings schema context prefix suffix reg) xs)"
  by (induction xs) (simp_all add: get_ts_interface_registered[OF assms])

text \<open>
  The loop of \<open>generate_ts\<close> over keys of \<open>__serializers\<close> appends one namespace block per
  selected key to the file, in the order of the keys.
\<close>

lemma contexts_loop_registered:
  assumes "set ctxs \<subseteq> fst ` set (serializers reg)"
    and "files fs output_path = Some old"
  shows "contexts_loop mappings output_path context prefix suffix all_contexts reg ctxs fs =
           (None, fs\<lparr>files := (files fs)(output_path \<mapsto>
              old @ concat (map (\<lambda>c. spec_namespace mappings c prefix suffix reg)
                              (filter (\<lambda>c. all_contexts \<or> context = c) ctxs)))\<rparr>)"
  using assms
proof (induction ctxs arbitrary: fs old)
  case Nil
  then have "(files fs)(output_path \<mapsto> old) = files fs" by (simp add: fun_upd_idem)
  then show ?case by simp
next
  case (Cons c ctxs)
  have "c \<in> fst ` set (serializers reg)" using Cons.prems(1) by simp
  then have "map_of (serializers reg) c \<noteq> None" by (simp add: map_of_eq_None_iff)
  then obtain ss where ss: "map_of (serializers reg) c = Some ss" by blast
  have sub: "set ctxs \<subseteq> fst ` set (serializers reg)" using Cons.prems(1) by simp
  show ?case
  proof (cases "all_contexts \<or> context = c")
    case False
    then show ?thesis using Cons.IH[OF sub Cons.prems(2)] by simp
  next
    case True
    define hdr where "hdr = NL @ ''declare namespace '' @ c @ '' {'' @ NL @ NL"
    define body where
      "body = concat (map (\<lambda>schema. spec_render mappings schema c prefix suffix reg) ss)"
    define rest where
      "rest = concat (map (\<lambda>c. spec_namespace mappings c prefix suffix reg)
                       (filter (\<lambda>c. all_contexts \<or> context = c) ctxs))"
    define fs' where "fs' = fs\<lparr>files := (files fs)(output_path \<mapsto> old @ hdr @ body @ ''}'')\<rparr>"
    have w: "fs_write output_path ''}'' (fs_write output_path body (fs_write output_path hdr fs))
               = fs'"
      by (simp add: fs_write_def dict_get_def Cons.prems(2) fs'_def)
    have step: "contexts_loop mappings output_path context prefix suffix all_contexts reg
                  (c # ctxs) fs
                = contexts_loop mappings output_path context prefix suffix all_contexts reg
                    ctxs fs'"
      by (simp only: contexts_loop.simps True if_True ss option.simps
            interfaces_of_registered[OF ss] sum.simps w[unfolded hdr_def body_def])
    have f': "files fs' output_path = Some (old @ hdr @ body @ ''}'')"
      by (simp add: fs'_def)
    have ih: "contexts_loop mappings output_path context prefix suffix all_contexts reg ctxs fs'
                = (None, fs'\<lparr>files := (files fs')(output_path \<mapsto>
                                   (old @ hdr @ body @ ''}'') @ rest)\<rparr>)"
      using Cons.IH[OF sub f'] by (simp only: rest_def)
    have upd: "fs'\<lparr>files := (files fs')(output_path \<mapsto> new)\<rparr>
                 = fs\<lparr>files := (files fs)(output_path \<mapsto> new)\<rparr>" for new
      by (simp add: fs'_def)
    have ns: "spec_namespace mappings c prefix suffix reg = hdr @ body @ ''}''"
      by (simp add: spec_namespace_def ss hdr_def body_def)
    have all: "concat (map (\<lambda>c. spec_namespace mappings c prefix suffix reg)
                         (filter (\<lambda>c. all_contexts \<or> context = c) (c # ctxs)))
                 = (hdr @ body @ ''}'') @ rest"
      using True by (simp only: filter.simps list.map concat.simps ns rest_def if_True)
    show ?thesis
      by (simp only: step ih upd all append_assoc)
  qed
qed

lemma generate_ts_emits:
  assumes "can_open fs output_path"
  shows "generate_ts mappings output_path context prefix suffix all_contexts reg fs =
           (None, fs\<lparr>files := (files fs)(output_path \<mapsto>
                      spec_emit mappings context prefix suffix all_contexts reg)\<rparr>)"
proof -
  let ?fs0 = "fs\<lparr>files := (files fs)(output_path \<mapsto> [])\<rparr>"
  have "set (map fst (serializers reg)) \<subseteq> fst ` set (serializers reg)" by simp
  moreover have "files ?fs0 output_path = Some []" by simp
  ultimately show ?thesis
    using assms
    by (simp add: generate_ts_def contexts_loop_registered spec_emit_def)
qed

text \<open>The example objects, evaluated.\<close>

lemma ex_register_user_once:
  "ts_interface ''default'' None (ClassObj ex_UserSerializer) empty_registry
     = Inr (ex_reg_user, ClassObj ex_UserSerializer)"
  by (simp add: ts_interface_def empty_registry_def ex_reg_user_def issubclass_def
      ex_UserSerializer_def)

lemma ex_register_user_twice:
  "ts_interface ''default'' None (ClassObj ex_UserSerializer) ex_reg_user
     = Inr (ex_reg_user_twice, ClassObj ex_UserSerializer)"
  by (simp add: ts_interface_def ex_reg_user_twice_def ex_reg_user_def issubclass_def
      ex_UserSerializer_def)

lemma ex_user_facts:
  "issubclass ex_UserSerializer DrfSerializer"
  "cls_name ex_UserSerializer = ''UserSerializer''"
  "serializer_fields ex_UserSerializer
     = [(''id'', Field ex_IntegerField None),
        (''tags'', Field ex_ListField (Some (Field ex_CharField None)))]"
  "ex_mappings ex_IntegerField = Some ''number''"
  "ex_mappings ex_CharField = Some ''string''"
  "ex_IntegerField \<noteq> ex_UserSerializer"
  "ex_CharField \<noteq> ex_UserSerializer"
  by (simp_all add: serializer_fields_def issubclass_def ex_UserSerializer_def ex_mappings_def
      ex_IntegerField_def ex_CharField_def)

lemma user_example_emit:
  assumes ser: "issubclass user DrfSerializer"
    and name: "cls_name user = ''UserSerializer''"
    and flds: "serializer_fields user
                 = [(''id'', Field int_kind None),
                    (''tags'', Field coll (Some (Field str_kind ch)))]"
    and tbl: "mappings int_kind = Some ''number''" "mappings str_kind = Some ''string''"
    and other: "int_kind \<noteq> user" "str_kind \<noteq> user"
  shows "ts_interface ''default'' None (ClassObj user) empty_registry
           = Inr (empty_registry\<lparr>serializers := [(''default'', [user])]\<rparr>, ClassObj user)"
    and "spec_emit mappings ''default'' [] [] False
           (empty_registry\<lparr>serializers := [(''default'', [user])]\<rparr>)
         = NL @ ''declare namespace default {'' @ NL @ NL
           @ ''  export interface User {'' @ NL
           @ ''    [x: string]: number | string[];'' @ NL
           @ ''    id: number;'' @ NL
           @ ''    tags: string[];'' @ NL
           @ ''  }'' @ NL @ NL
           @ ''}''"
proof -
  let ?reg = "empty_registry\<lparr>serializers := [(''default'', [user])]\<rparr>"
  show "ts_interface ''default'' None (ClassObj user) empty_registry = Inr (?reg, ClassObj user)"
    using ser by (simp add: ts_interface_def empty_registry_def)
  have r: "registered_in ?reg c k = (c = ''default'' \<and> k = user)" for c k
    by (simp add: registered_in_def)
  have k: "kind_override ?reg c k = None" for c k
    by (simp add: kind_override_def empty_registry_def)
  have n: "name_override ?reg c k f = None" for c k f
    by (simp add: name_override_def empty_registry_def)
  have t1: "spec_resolve mappings ''id'' (Field int_kind None) ''default'' user [] [] ?reg
              = ''number''"
    using other tbl
    by (simp add: spec_resolve_def spec_tiers_def base_kind_def array_suffix_def r k n dict_get_def)
  have t2: "spec_resolve mappings ''tags'' (Field coll (Some (Field str_kind ch))) ''default''
              user [] [] ?reg = ''string[]''"
    using other tbl
    by (simp add: spec_resolve_def spec_tiers_def base_kind_def array_suffix_def r k n dict_get_def)
  have nm: "get_interface_name (cls_name user) [] [] = ''User''"
    by (simp add: name get_interface_name_def re_sub_Serializer_def ends_with_def)
  have rnd: "spec_render mappings user ''default'' [] [] ?reg
               = ''  export interface User {'' @ NL
                 @ ''    [x: string]: number | string[];'' @ NL
                 @ ''    id: number;'' @ NL
                 @ ''    tags: string[];'' @ NL
                 @ ''  }'' @ NL @ NL"
    by (simp add: spec_render_def spec_body_def spec_index_signature_def spec_resolved_types_def
        spec_field_lines_def spec_field_line_def flds t1 t2 nm)
  show "spec_emit mappings ''default'' [] [] False ?reg
         = NL @ ''declare namespace default {'' @ NL @ NL
           @ ''  export interface User {'' @ NL
           @ ''    [x: string]: number | string[];'' @ NL
           @ ''    id: number;'' @ NL
           @ ''    tags: string[];'' @ NL
           @ ''  }'' @ NL @ NL
           @ ''}''"
    by (simp add: spec_emit_def spec_namespace_def rnd)
qed

section \<open>The resolver\<close>

text \<open>
  Claim C1. For a field of a schema rendered in a context that is a key of
  \<open>__serializers\<close>, \<open>__process_field\<close> returns what the ordered chain of tiers 2 to 7
  gives for the base kind, followed by the array notation for a collection field. In
  particular a base kind that is a schema of the context resolves to that schema's
  synthesized name whatever overrides are registered, and a kind override of the context
  or of the default context decides before any name override is looked at.
\<close>

theorem process_field_follows_tier_chain:
  assumes "map_of (serializers reg) context = Some ss"
  shows "process_field mappings field_name fld context owner prefix suffix reg =
           Inr (field_name,
                spec_tiers mappings field_name (base_kind fld) context owner prefix suffix reg
                  @ array_suffix fld)
         \<and> (base_kind fld \<in> set ss \<longrightarrow>
              process_field mappings field_name fld context owner prefix suffix reg =
                Inr (field_name,
                     get_interface_name (cls_name (base_kind fld)) prefix suffix @ array_suffix fld))
         \<and> (\<not> registered_in reg context (base_kind fld) \<longrightarrow>
            \<not> registered_in reg default_context (base_kind fld) \<longrightarrow>
            (kind_override reg context (base_kind fld) = Some t
             \<or> kind_override reg context (base_kind fld) = None
               \<and> kind_override reg default_context (base_kind fld) = Some t) \<longrightarrow>
              process_field mappings field_name fld context owner prefix suffix reg =
                Inr (field_name, t @ array_suffix fld))"
  using assms
  by (auto simp: process_field_registered[OF assms] spec_resolve_def spec_tiers_def
      registered_in_def)

theorem process_field_follows_tier_chain_witness:
  "map_of (serializers ex_reg_nested) ''default'' = Some [ex_AddressSerializer, ex_UserSerializer]
   \<and> base_kind (Field ex_AddressSerializer None) \<in> set [ex_AddressSerializer, ex_UserSerializer]
   \<and> kind_override ex_reg_nested ''default'' ex_AddressSerializer = Some ''object''
   \<and> name_override ex_reg_nested ''default'' ex_UserSerializer ''address'' = Some ''string''
   \<and> process_field ex_mappings ''address'' (Field ex_AddressSerializer None) ''default''
        ex_UserSerializer [] [] ex_reg_nested = Inr (''address'', ''Address'')
   \<and> \<not> registered_in ex_reg_nested ''default''
         (base_kind (Field ex_ListField (Some (Field ex_CharField None))))
   \<and> kind_override ex_reg_nested ''default''
         (base_kind (Field ex_ListField (Some (Field ex_CharField None)))) = Some ''Text''
   \<and> name_override ex_reg_nested ''default'' ex_UserSerializer ''tags'' = Some ''Tag''
   \<and> process_field ex_mappings ''tags'' (Field ex_ListField (Some (Field ex_CharField None)))
        ''default'' ex_UserSerializer [] [] ex_reg_nested = Inr (''tags'', ''Text[]'')"
proof -
  have h: "map_of (serializers ex_reg_nested) ''default''
             = Some [ex_AddressSerializer, ex_UserSerializer]"
    by (simp add: ex_reg_nested_def)
  have b: "base_kind (Field ex_AddressSerializer None)
             \<in> set [ex_AddressSerializer, ex_UserSerializer]"
    by (simp add: base_kind_def)
  have k1: "kind_override ex_reg_nested ''default'' ex_AddressSerializer = Some ''object''"
    by (simp add: kind_override_def ex_reg_nested_def ex_AddressSerializer_def ex_CharField_def)
  have n1: "name_override ex_reg_nested ''default'' ex_UserSerializer ''address'' = Some ''string''"
    by (simp add: name_override_def ex_reg_nested_def)
  have nm: "get_interface_name (cls_name (base_kind (Field ex_AddressSerializer None))) [] []
              @ array_suffix (Field ex_AddressSerializer None) = ''Address''"
    by (simp add: base_kind_def array_suffix_def ex_AddressSerializer_def get_interface_name_def
        re_sub_Serializer_def ends_with_def)
  have a: "process_field ex_mappings ''address'' (Field ex_AddressSerializer None) ''default''
        ex_UserSerializer [] [] ex_reg_nested = Inr (''address'', ''Address'')"
  proof -
    have "process_field ex_mappings ''address'' (Field ex_AddressSerializer None) ''default''
            ex_UserSerializer [] [] ex_reg_nested
          = Inr (''address'',
                 get_interface_name (cls_name (base_kind (Field ex_AddressSerializer None))) [] []
                   @ array_suffix (Field ex_AddressSerializer None))"
      using process_field_follows_tier_chain
        [OF h, of ex_mappings "''address''" "Field ex_AddressSerializer None" ex_UserSerializer
           "[]" "[]" "''object''"] b
      by blast
    then show ?thesis by (simp only: nm)
  qed
  have bk: "base_kind (Field ex_ListField (Some (Field ex_CharField None))) = ex_CharField"
    by (simp add: base_kind_def)
  have r2: "\<not> registered_in ex_reg_nested ''default'' ex_CharField"
    by (simp add: registered_in_def ex_reg_nested_def ex_CharField_def ex_AddressSerializer_def
        ex_UserSerializer_def)
  have r2': "\<not> registered_in ex_reg_nested default_context ex_CharField"
    using r2 by (simp add: default_context_def)
  have k2: "kind_override ex_reg_nested ''default'' ex_CharField = Some ''Text''"
    by (simp add: kind_override_def ex_reg_nested_def ex_AddressSerializer_def ex_CharField_def)
  have n2: "name_override ex_reg_nested ''default'' ex_UserSerializer ''tags'' = Some ''Tag''"
    by (simp add: name_override_def ex_reg_nested_def)
  have sf: "''Text'' @ array_suffix (Field ex_ListField (Some (Field ex_CharField None)))
              = ''Text[]''"
    by (simp add: array_suffix_def)
  have c: "process_field ex_mappings ''tags'' (Field ex_ListField (Some (Field ex_CharField None)))
        ''default'' ex_UserSerializer [] [] ex_reg_nested = Inr (''tags'', ''Text[]'')"
  proof -
    have "process_field ex_mappings ''tags'' (Field ex_ListField (Some (Field ex_CharField None)))
            ''default'' ex_UserSerializer [] [] ex_reg_nested
          = Inr (''tags'',
                 ''Text'' @ array_suffix (Field ex_ListField (Some (Field ex_CharField None))))"
      using process_field_follows_tier_chain
        [OF h, of ex_mappings "''tags''" "Field ex_ListField (Some (Field ex_CharField None))"
           ex_UserSerializer "[]" "[]" "''Text''"] r2 r2' k2
      unfolding bk by blast
    then show ?thesis by (simp only: sf)
  qed
  show ?thesis
    unfolding bk using h b k1 n1 a r2 k2 n2 c by blast
qed

text \<open>
  Claim C3. A collection field whose child has kind K resolves to what a field of kind K
  without child resolves to (same name, context, owning schema, prefix and suffix), with
  \<open>[]\<close> appended, and raises exactly when that field does; the class of the wrapping
  collection plays no part.
\<close>

theorem collection_field_appends_array_suffix:
  "process_field mappings field_name (Field coll (Some ch)) context owner prefix suffix reg =
     (case process_field mappings field_name (Field (py_type ch) None) context owner prefix suffix reg of
        Inl e \<Rightarrow> Inl e
      | Inr (name, ts_type) \<Rightarrow> Inr (name, ts_type @ ''[]''))
   \<and> process_field mappings field_name (Field coll (Some ch)) context owner prefix suffix reg =
     process_field mappings field_name (Field coll' (Some ch)) context owner prefix suffix reg"
  by (simp add: process_field_def Let_def split: option.split)

theorem collection_field_appends_array_suffix_witness:
  "process_field ex_mappings ''tags'' (Field ex_CharField None) ''default'' ex_UserSerializer
     [] [] ex_reg_user = Inr (''tags'', ''string'')
   \<and> process_field ex_mappings ''tags'' (Field ex_ListField (Some (Field ex_CharField None)))
       ''default'' ex_UserSerializer [] [] ex_reg_user = Inr (''tags'', ''string[]'')"
proof -
  have plain: "process_field ex_mappings ''tags'' (Field ex_CharField None) ''default''
                 ex_UserSerializer [] [] ex_reg_user = Inr (''tags'', ''string'')"
    using ex_user_facts(5,7)
    by (simp add: process_field_def ex_reg_user_def default_context_def dict_get_def)
  have "process_field ex_mappings ''tags'' (Field ex_ListField (Some (Field ex_CharField None)))
          ''default'' ex_UserSerializer [] [] ex_reg_user = Inr (''tags'', ''string[]'')"
    using collection_field_appends_array_suffix
      [of ex_mappings "''tags''" ex_ListField "Field ex_CharField None" "''default''"
          ex_UserSerializer "[]" "[]" ex_reg_user ex_ListField]
    by (simp add: plain)
  with plain show ?thesis by blast
qed

text \<open>
  Claim C5, as stated, asks for a non-empty type string. A field class registered through
  \<open>ts_field\<close> with the empty string as its type resolves to the empty string.
\<close>

theorem process_field_total_counterexample:
  "ts_field [] ''default'' (ClassObj ex_IntegerField) ex_reg_user
     = Inr (ex_reg_empty_type, ClassObj ex_IntegerField)
   \<and> process_field ex_mappings ''id'' (Field ex_IntegerField None) ''default'' ex_UserSerializer
       [] [] ex_reg_empty_type = Inr (''id'', [])"
  by (simp add: ts_field_def ex_reg_user_def ex_reg_empty_type_def issubclass_def
      ex_IntegerField_def process_field_def ex_UserSerializer_def default_context_def dict_get_def)

text \<open>
  Claim C5, amended. In a context that is a key of \<open>__serializers\<close> resolution raises
  nothing and returns one type string under the field's name. The string is non-empty for
  a collection field, and for any field when no registered kind override, name override
  or table entry is the empty string and the synthesized name of the base kind is not
  empty. When the base kind is no registered schema and has no kind override, and the
  field name has no name override, the string is the table's entry for the base kind, or
  \<open>any\<close> when the table has none, followed by the array notation for a collection field.
\<close>

theorem process_field_total:
  assumes "map_of (serializers reg) context = Some ss"
  shows "\<exists>ts_type.
           process_field mappings field_name fld context owner prefix suffix reg
             = Inr (field_name, ts_type)
           \<and> (child fld \<noteq> None \<longrightarrow> ts_type \<noteq> [])
           \<and> ((\<forall>c fm k v. field_mappings reg c = Some fm \<longrightarrow> fm k = Some v \<longrightarrow> v \<noteq> []) \<longrightarrow>
              (\<forall>c per_cls k d f v. mapping_overrides reg c = Some per_cls \<longrightarrow> per_cls k = Some d \<longrightarrow>
                 map_of d f = Some v \<longrightarrow> v \<noteq> []) \<longrightarrow>
              (\<forall>k v. mappings k = Some v \<longrightarrow> v \<noteq> []) \<longrightarrow>
              get_interface_name (cls_name (base_kind fld)) prefix suffix \<noteq> [] \<longrightarrow>
              ts_type \<noteq> [])
           \<and> (\<not> registered_in reg context (base_kind fld) \<longrightarrow>
              \<not> registered_in reg default_context (base_kind fld) \<longrightarrow>
              kind_override reg context (base_kind fld) = None \<longrightarrow>
              kind_override reg default_context (base_kind fld) = None \<longrightarrow>
              name_override reg context owner field_name = None \<longrightarrow>
              ts_type = (case mappings (base_kind fld) of Some t \<Rightarrow> t | None \<Rightarrow> ''any'')
                          @ array_suffix fld)"
proof -
  let ?t = "spec_tiers mappings field_name (base_kind fld) context owner prefix suffix reg"
  have many: "child fld \<noteq> None \<longrightarrow> ?t @ array_suffix fld \<noteq> []"
    by (simp add: array_suffix_def)
  have nonempty: "?t \<noteq> []"
    if fm: "\<forall>c fm k v. field_mappings reg c = Some fm \<longrightarrow> fm k = Some v \<longrightarrow> v \<noteq> []"
    and mo: "\<forall>c per_cls k d f v. mapping_overrides reg c = Some per_cls \<longrightarrow> per_cls k = Some d \<longrightarrow>
                 map_of d f = Some v \<longrightarrow> v \<noteq> []"
    and tb: "\<forall>k v. mappings k = Some v \<longrightarrow> v \<noteq> []"
    and nm: "get_interface_name (cls_name (base_kind fld)) prefix suffix \<noteq> []"
  proof -
    have k: "kind_override reg c (base_kind fld) = Some v \<Longrightarrow> v \<noteq> []" for c v
      using fm by (auto simp: kind_override_def split: option.splits)
    have n: "name_override reg context owner field_name = Some v \<Longrightarrow> v \<noteq> []" for v
      using mo by (auto simp: name_override_def split: option.splits)
    have d: "dict_get mappings (base_kind fld) ''any'' \<noteq> []"
      using tb by (auto simp: dict_get_def split: option.splits)
    show ?thesis
      using k n d nm by (auto simp: spec_tiers_def split: option.splits)
  qed
  have fallback: "?t = (case mappings (base_kind fld) of Some t \<Rightarrow> t | None \<Rightarrow> ''any'')"
    if "\<not> registered_in reg context (base_kind fld)"
      "\<not> registered_in reg default_context (base_kind fld)"
      "kind_override reg context (base_kind fld) = None"
      "kind_override reg default_context (base_kind fld) = None"
      "name_override reg context owner field_name = None"
    using that by (simp add: spec_tiers_def dict_get_def)
  show ?thesis
    using many nonempty fallback
    by (simp add: process_field_registered[OF assms] spec_resolve_def)
qed

theorem process_field_total_witness:
  "map_of (serializers ex_reg_user) ''default'' = Some [ex_UserSerializer]
   \<and> child (Field ex_ListField (Some (Field ex_CharField None))) \<noteq> None
   \<and> \<not> registered_in ex_reg_user ''default'' ex_IntegerField
   \<and> kind_override ex_reg_user ''default'' ex_IntegerField = None
   \<and> name_override ex_reg_user ''default'' ex_UserSerializer ''id'' = None
   \<and> process_field ex_mappings ''id'' (Field ex_IntegerField None) ''default'' ex_UserSerializer
       [] [] ex_reg_user = Inr (''id'', ''number'')
   \<and> process_field ex_mappings ''extra'' (Field ex_ListField None) ''default'' ex_UserSerializer
       [] [] ex_reg_user = Inr (''extra'', ''any'')
   \<and> get_interface_name (cls_name (base_kind (Field ex_IntegerField None))) [] [] \<noteq> []
   \<and> process_field ex_mappings ''id'' (Field ex_IntegerField None) ''default'' ex_UserSerializer
       [] [] ex_reg_nested \<noteq> Inr (''id'', [])"
proof -
  have h: "map_of (serializers ex_reg_user) ''default'' = Some [ex_UserSerializer]"
    by (simp add: ex_reg_user_def)
  have r: "\<not> registered_in ex_reg_user ''default'' k" if "k \<noteq> ex_UserSerializer" for k
    using that by (simp add: registered_in_def ex_reg_user_def)
  have k: "kind_override ex_reg_user c k = None" for c k
    by (simp add: kind_override_def ex_reg_user_def)
  have n: "name_override ex_reg_user c k f = None" for c k f
    by (simp add: name_override_def ex_reg_user_def)
  have i: "ex_IntegerField \<noteq> ex_UserSerializer" "ex_ListField \<noteq> ex_UserSerializer"
    by (simp_all add: ex_IntegerField_def ex_UserSerializer_def ex_ListField_def)
  have m: "ex_mappings ex_IntegerField = Some ''number''" "ex_mappings ex_ListField = None"
    by (simp_all add: ex_mappings_def ex_IntegerField_def ex_CharField_def ex_ListField_def)
  have a: "process_field ex_mappings ''id'' (Field ex_IntegerField None) ''default''
             ex_UserSerializer [] [] ex_reg_user = Inr (''id'', ''number'')"
    using process_field_total
      [OF h, of ex_mappings "''id''" "Field ex_IntegerField None" ex_UserSerializer "[]" "[]"]
      r [OF i(1)] k n
    by (auto simp: base_kind_def array_suffix_def default_context_def m)
  have b: "process_field ex_mappings ''extra'' (Field ex_ListField None) ''default''
             ex_UserSerializer [] [] ex_reg_user = Inr (''extra'', ''any'')"
    using process_field_total
      [OF h, of ex_mappings "''extra''" "Field ex_ListField None" ex_UserSerializer "[]" "[]"]
      r [OF i(2)] k n
    by (auto simp: base_kind_def array_suffix_def default_context_def m)
  have h': "map_of (serializers ex_reg_nested) ''default''
              = Some [ex_AddressSerializer, ex_UserSerializer]"
    by (simp add: ex_reg_nested_def)
  have p1: "\<forall>c fm k v. field_mappings ex_reg_nested c = Some fm \<longrightarrow> fm k = Some v \<longrightarrow> v \<noteq> []"
    by (auto simp: ex_reg_nested_def split: if_splits)
  have p2: "\<forall>c per_cls k d f v. mapping_overrides ex_reg_nested c = Some per_cls \<longrightarrow>
              per_cls k = Some d \<longrightarrow> map_of d f = Some v \<longrightarrow> v \<noteq> []"
    by (auto simp: ex_reg_nested_def split: if_splits)
  have p3: "\<forall>k v. ex_mappings k = Some v \<longrightarrow> v \<noteq> []"
    by (auto simp: ex_mappings_def split: if_splits)
  have p4: "get_interface_name (cls_name (base_kind (Field ex_IntegerField None))) [] [] \<noteq> []"
    by (simp add: base_kind_def ex_IntegerField_def get_interface_name_def re_sub_Serializer_def
        ends_with_def)
  have c: "process_field ex_mappings ''id'' (Field ex_IntegerField None) ''default''
             ex_UserSerializer [] [] ex_reg_nested \<noteq> Inr (''id'', [])"
    using process_field_total
      [OF h', of ex_mappings "''id''" "Field ex_IntegerField None" ex_UserSerializer "[]" "[]"]
      p1 p2 p3 p4
    by auto
  show ?thesis
    using h r [OF i(1)] k n a b p4 c by simp
qed

section \<open>Naming\<close>

lemma re_sub_Serializer_identifier:
  assumes "CHR 0x0A \<notin> set name"
  shows "re_sub_Serializer name = spec_strip_Serializer name"
proof -
  have "\<not> ends_with name (''Serializer'' @ NL)"
  proof
    assume "ends_with name (''Serializer'' @ NL)"
    then have "drop (length name - length (''Serializer'' @ NL)) name = ''Serializer'' @ NL"
      by (simp add: ends_with_def)
    then have "CHR 0x0A \<in> set (drop (length name - length (''Serializer'' @ NL)) name)"
      by simp
    then have "CHR 0x0A \<in> set name"
      by (rule in_set_dropD)
    with assms show False by simp
  qed
  moreover have "length ''Serializer'' = 10"
    by simp
  ultimately show ?thesis
    unfolding re_sub_Serializer_def spec_strip_Serializer_def by presburger
qed

text \<open>
  Claim C7. A field without child whose kind is a schema registered in the field's context
  or in the default context resolves to \<open>get_interface_name\<close> of the schema's name, and
  the block rendered for the schema in a context where it is registered opens with the
  same name. For a name without newline, that is for every identifier, the name is the
  prefix, the declared name less one trailing \<open>Serializer\<close>, and the suffix. A field of kind
  \<open>AddressSerializer\<close> resolves to \<open>Address\<close> under the empty prefix and suffix.
\<close>

theorem nested_reference_uses_rendered_name:
  assumes "map_of (serializers reg) context = Some ss"
    and "registered_in reg context schema \<or> registered_in reg default_context schema"
    and "registered_in reg home schema"
  shows "process_field mappings field_name (Field schema None) context owner prefix suffix reg
           = Inr (field_name, get_interface_name (cls_name schema) prefix suffix)
         \<and> get_ts_interface mappings schema home prefix suffix reg
           = Inr (''  export interface '' @ get_interface_name (cls_name schema) prefix suffix
                  @ '' {'' @ NL @ spec_body mappings schema home prefix suffix reg)
         \<and> (CHR 0x0A \<notin> set (cls_name schema) \<longrightarrow>
              get_interface_name (cls_name schema) prefix suffix
                = prefix @ spec_strip_Serializer (cls_name schema) @ suffix)
         \<and> (cls_name schema = ''AddressSerializer'' \<longrightarrow>
              process_field mappings field_name (Field schema None) context owner [] [] reg
                = Inr (field_name, ''Address''))"
proof -
  obtain hs where hs: "map_of (serializers reg) home = Some hs"
    using assms(3) by (auto simp: registered_in_def split: option.splits)
  have tiers: "spec_tiers mappings field_name schema context owner p s reg
                 = get_interface_name (cls_name schema) p s" for p s
    using assms(2) by (auto simp: spec_tiers_def)
  have resolve: "process_field mappings field_name (Field schema None) context owner p s reg
                   = Inr (field_name, get_interface_name (cls_name schema) p s)" for p s
    by (simp add: process_field_registered[OF assms(1)] spec_resolve_def tiers base_kind_def
        array_suffix_def)
  have render: "get_ts_interface mappings schema home prefix suffix reg
           = Inr (''  export interface '' @ get_interface_name (cls_name schema) prefix suffix
                  @ '' {'' @ NL @ spec_body mappings schema home prefix suffix reg)"
    by (simp add: get_ts_interface_registered[OF hs] spec_render_def)
  have naming: "CHR 0x0A \<notin> set (cls_name schema) \<longrightarrow>
              get_interface_name (cls_name schema) prefix suffix
                = prefix @ spec_strip_Serializer (cls_name schema) @ suffix"
    by (simp add: get_interface_name_def re_sub_Serializer_identifier)
  have example: "cls_name schema = ''AddressSerializer'' \<longrightarrow>
              process_field mappings field_name (Field schema None) context owner [] [] reg
                = Inr (field_name, ''Address'')"
    by (simp add: resolve get_interface_name_def re_sub_Serializer_def ends_with_def)
  show ?thesis
    using resolve render naming example by blast
qed

theorem nested_reference_uses_rendered_name_witness:
  "map_of (serializers ex_reg_nested) ''default'' = Some [ex_AddressSerializer, ex_UserSerializer]
   \<and> registered_in ex_reg_nested ''default'' ex_AddressSerializer
   \<and> CHR 0x0A \<notin> set (cls_name ex_AddressSerializer)
   \<and> cls_name ex_AddressSerializer = ''AddressSerializer''
   \<and> process_field ex_mappings ''address'' (Field ex_AddressSerializer None) ''default''
        ex_UserSerializer [] [] ex_reg_nested = Inr (''address'', ''Address'')
   \<and> get_ts_interface ex_mappings ex_AddressSerializer ''default'' ''I'' ''Dto'' ex_reg_nested
       = Inr (''  export interface IAddressDto {'' @ NL
              @ spec_body ex_mappings ex_AddressSerializer ''default'' ''I'' ''Dto'' ex_reg_nested)
   \<and> process_field ex_mappings ''address'' (Field ex_AddressSerializer None) ''default''
        ex_UserSerializer ''I'' ''Dto'' ex_reg_nested = Inr (''address'', ''IAddressDto'')"
proof -
  have h: "map_of (serializers ex_reg_nested) ''default''
             = Some [ex_AddressSerializer, ex_UserSerializer]"
    by (simp add: ex_reg_nested_def)
  have r: "registered_in ex_reg_nested ''default'' ex_AddressSerializer"
    by (simp add: registered_in_def ex_reg_nested_def)
  have n: "cls_name ex_AddressSerializer = ''AddressSerializer''"
    by (simp add: ex_AddressSerializer_def)
  have nl: "CHR 0x0A \<notin> set (cls_name ex_AddressSerializer)"
    by (simp add: n)
  have s: "spec_strip_Serializer ''AddressSerializer'' = ''Address''"
    by (simp add: spec_strip_Serializer_def ends_with_def)
  note t1 = nested_reference_uses_rendered_name
        [OF h disjI1 [OF r] r, of ex_mappings "''address''" ex_UserSerializer "[]" "[]"]
  note t2 = nested_reference_uses_rendered_name
        [OF h disjI1 [OF r] r, of ex_mappings "''address''" ex_UserSerializer "''I''" "''Dto''"]
  have a: "process_field ex_mappings ''address'' (Field ex_AddressSerializer None) ''default''
        ex_UserSerializer [] [] ex_reg_nested = Inr (''address'', ''Address'')"
    using t1 n by blast
  have g: "get_interface_name (cls_name ex_AddressSerializer) ''I'' ''Dto'' = ''IAddressDto''"
    using t2 nl by (simp only: n s) simp
  have b: "get_ts_interface ex_mappings ex_AddressSerializer ''default'' ''I'' ''Dto'' ex_reg_nested
       = Inr (''  export interface IAddressDto {'' @ NL
              @ spec_body ex_mappings ex_AddressSerializer ''default'' ''I'' ''Dto'' ex_reg_nested)"
    using t2 by (simp only: g) simp
  have c: "process_field ex_mappings ''address'' (Field ex_AddressSerializer None) ''default''
        ex_UserSerializer ''I'' ''Dto'' ex_reg_nested = Inr (''address'', ''IAddressDto'')"
    using t2 by (simp only: g)
  show ?thesis
    using h r n nl a b c by blast
qed

section \<open>Registration\<close>

text \<open>
  Claim C8. Registration does not raise on a class: applied to a class that is no
  serializer, the decorator of \<open>ts_interface\<close> leaves the registry as it was, and so does
  the decorator of \<open>ts_field\<close> applied to a class that is no framework field; in every
  case the decorator returns without an exception and hands back the class it was given.
\<close>

theorem registration_of_nonconforming_class_is_noop:
  "(\<not> issubclass cls DrfSerializer \<longrightarrow>
      ts_interface context overrides (ClassObj cls) reg = Inr (reg, ClassObj cls))
   \<and> (\<not> issubclass cls DrfField \<longrightarrow>
      ts_field ts_type context (ClassObj cls) reg = Inr (reg, ClassObj cls))
   \<and> (\<exists>reg'. ts_interface context overrides (ClassObj cls) reg = Inr (reg', ClassObj cls))
   \<and> (\<exists>reg'. ts_field ts_type context (ClassObj cls) reg = Inr (reg', ClassObj cls))"
  by (simp add: ts_interface_def ts_field_def Let_def)

theorem registration_of_nonconforming_class_is_noop_witness:
  "\<not> issubclass ex_Plain DrfSerializer
   \<and> \<not> issubclass ex_Plain DrfField
   \<and> ts_interface ''default'' (Some [(''baz'', ''string[]'')]) (ClassObj ex_Plain) empty_registry
       = Inr (empty_registry, ClassObj ex_Plain)
   \<and> ts_field ''string'' ''default'' (ClassObj ex_Plain) empty_registry
       = Inr (empty_registry, ClassObj ex_Plain)"
  using registration_of_nonconforming_class_is_noop
    [of ex_Plain "''default''" "Some [(''baz'', ''string[]'')]" empty_registry "''string''"]
  by (simp add: issubclass_def ex_Plain_def)

text \<open>
  Claim C2, as stated, has a second registration of a class in a context ignored. The
  decorator appends to the list of the context without looking for the class in it: after
  two registrations of \<open>UserSerializer\<close> in \<open>default\<close> the list holds the class twice and
  the file gets its block twice.
\<close>

theorem double_registration_counterexample:
  "ts_interface ''default'' None (ClassObj ex_UserSerializer) empty_registry
     = Inr (ex_reg_user, ClassObj ex_UserSerializer)
   \<and> ts_interface ''default'' None (ClassObj ex_UserSerializer) ex_reg_user
     = Inr (ex_reg_user_twice, ClassObj ex_UserSerializer)
   \<and> map_of (serializers ex_reg_user_twice) ''default''
     = Some [ex_UserSerializer, ex_UserSerializer]
   \<and> generate_ts ex_mappings ''out.ts'' ''default'' [] [] False ex_reg_user_twice ex_fs
     = (None, ex_fs\<lparr>files := (files ex_fs)(''out.ts'' \<mapsto>
          NL @ ''declare namespace default {'' @ NL @ NL
          @ ''  export interface User {'' @ NL
          @ ''    [x: string]: number | string[];'' @ NL
          @ ''    id: number;'' @ NL
          @ ''    tags: string[];'' @ NL
          @ ''  }'' @ NL @ NL
          @ ''  export interface User {'' @ NL
          @ ''    [x: string]: number | string[];'' @ NL
          @ ''    id: number;'' @ NL
          @ ''    tags: string[];'' @ NL
          @ ''  }'' @ NL @ NL
          @ ''}'')\<rparr>)"
proof -
  note a = ex_register_user_once
  note b = ex_register_user_twice
  have c: "map_of (serializers ex_reg_user_twice) ''default''
     = Some [ex_UserSerializer, ex_UserSerializer]"
    by (simp add: ex_reg_user_twice_def)
  have i: "ex_IntegerField \<noteq> ex_UserSerializer" "ex_CharField \<noteq> ex_UserSerializer"
    by (simp_all add: ex_IntegerField_def ex_UserSerializer_def ex_CharField_def)
  have m: "ex_mappings ex_IntegerField = Some ''number''" "ex_mappings ex_CharField = Some ''string''"
    by (simp_all add: ex_mappings_def ex_IntegerField_def ex_CharField_def)
  have f: "serializer_fields ex_UserSerializer
             = [(''id'', Field ex_IntegerField None),
                (''tags'', Field ex_ListField (Some (Field ex_CharField None)))]"
    by (simp add: serializer_fields_def issubclass_def ex_UserSerializer_def)
  have n: "get_interface_name (cls_name ex_UserSerializer) [] [] = ''User''"
    by (simp add: ex_UserSerializer_def get_interface_name_def re_sub_Serializer_def ends_with_def)
  have p1: "process_field ex_mappings ''id'' (Field ex_IntegerField None) ''default''
              ex_UserSerializer [] [] ex_reg_user_twice = Inr (''id'', ''number'')"
    using i by (simp add: process_field_def c m default_context_def dict_get_def
        ex_reg_user_twice_def)
  have p2: "process_field ex_mappings ''tags'' (Field ex_ListField (Some (Field ex_CharField None)))
              ''default'' ex_UserSerializer [] [] ex_reg_user_twice = Inr (''tags'', ''string[]'')"
    using i by (simp add: process_field_def c m default_context_def dict_get_def
        ex_reg_user_twice_def)
  have g: "get_ts_interface ex_mappings ex_UserSerializer ''default'' [] [] ex_reg_user_twice
             = Inr (''  export interface User {'' @ NL
                    @ ''    [x: string]: number | string[];'' @ NL
                    @ ''    id: number;'' @ NL
                    @ ''    tags: string[];'' @ NL
                    @ ''  }'' @ NL @ NL)"
    by (simp add: get_ts_interface_def f p1 p2 n)
  have k: "map fst (serializers ex_reg_user_twice) = [''default'']"
    by (simp add: ex_reg_user_twice_def)
  have d: "generate_ts ex_mappings ''out.ts'' ''default'' [] [] False ex_reg_user_twice ex_fs
     = (None, ex_fs\<lparr>files := (files ex_fs)(''out.ts'' \<mapsto>
          NL @ ''declare namespace default {'' @ NL @ NL
          @ ''  export interface User {'' @ NL
          @ ''    [x: string]: number | string[];'' @ NL
          @ ''    id: number;'' @ NL
          @ ''    tags: string[];'' @ NL
          @ ''  }'' @ NL @ NL
          @ ''  export interface User {'' @ NL
          @ ''    [x: string]: number | string[];'' @ NL
          @ ''    id: number;'' @ NL
          @ ''    tags: string[];'' @ NL
          @ ''  }'' @ NL @ NL
          @ ''}'')\<rparr>)"
    by (simp add: generate_ts_def k c g fs_write_def dict_get_def ex_fs_def)
  show ?thesis
    using a b c d by blast
qed

text \<open>
  Claim C2, amended. Registering a serializer class twice in one context raises nothing;
  each registration appends the class to the list of the context, so the list ends with
  the class twice, and rendering the context yields the block of the class once per
  registration.
\<close>

theorem double_registration_appends_twice:
  assumes "issubclass schema DrfSerializer"
  shows "\<exists>reg1 reg2.
           ts_interface context overrides (ClassObj schema) reg = Inr (reg1, ClassObj schema)
           \<and> ts_interface context overrides' (ClassObj schema) reg1 = Inr (reg2, ClassObj schema)
           \<and> map_of (serializers reg2) context
               = Some ((case map_of (serializers reg) context of None \<Rightarrow> [] | Some l \<Rightarrow> l)
                       @ [schema, schema])
           \<and> interfaces_of mappings context prefix suffix reg2
                ((case map_of (serializers reg) context of None \<Rightarrow> [] | Some l \<Rightarrow> l)
                 @ [schema, schema])
               = Inr (map (\<lambda>other. spec_render mappings other context prefix suffix reg2)
                        (case map_of (serializers reg) context of None \<Rightarrow> [] | Some l \<Rightarrow> l)
                      @ [spec_render mappings schema context prefix suffix reg2,
                         spec_render mappings schema context prefix suffix reg2])
           \<and> get_ts_interface mappings schema context prefix suffix reg2
               = Inr (spec_render mappings schema context prefix suffix reg2)"
proof -
  let ?before = "case map_of (serializers reg) context of None \<Rightarrow> [] | Some l \<Rightarrow> l"
  obtain reg1 where r1: "ts_interface context overrides (ClassObj schema) reg
                           = Inr (reg1, ClassObj schema)"
    and m1: "map_of (serializers reg1) context = Some (?before @ [schema])"
    using ts_interface_serializers[OF assms, of "context" overrides reg] by blast
  obtain reg2 where r2: "ts_interface context overrides' (ClassObj schema) reg1
                           = Inr (reg2, ClassObj schema)"
    and m2: "map_of (serializers reg2) context
               = Some ((case map_of (serializers reg1) context of None \<Rightarrow> [] | Some l \<Rightarrow> l)
                       @ [schema])"
    using ts_interface_serializers[OF assms, of "context" "overrides'" reg1] by blast
  have m2': "map_of (serializers reg2) context = Some (?before @ [schema, schema])"
    using m2 by (simp add: m1)
  show ?thesis
    using r1 r2 m2' interfaces_of_registered[OF m2'] get_ts_interface_registered[OF m2']
    by simp
qed

theorem double_registration_appends_twice_witness:
  "issubclass ex_UserSerializer DrfSerializer
   \<and> ts_interface ''default'' None (ClassObj ex_UserSerializer) empty_registry
       = Inr (ex_reg_user, ClassObj ex_UserSerializer)
   \<and> ts_interface ''default'' None (ClassObj ex_UserSerializer) ex_reg_user
       = Inr (ex_reg_user_twice, ClassObj ex_UserSerializer)
   \<and> map_of (serializers ex_reg_user_twice) ''default''
       = Some [ex_UserSerializer, ex_UserSerializer]
   \<and> interfaces_of ex_mappings ''default'' [] [] ex_reg_user_twice
        [ex_UserSerializer, ex_UserSerializer]
       = Inr [spec_render ex_mappings ex_UserSerializer ''default'' [] [] ex_reg_user_twice,
              spec_render ex_mappings ex_UserSerializer ''default'' [] [] ex_reg_user_twice]"
proof -
  obtain reg1 reg2 where
    r1: "ts_interface ''default'' None (ClassObj ex_UserSerializer) empty_registry
           = Inr (reg1, ClassObj ex_UserSerializer)"
    and r2: "ts_interface ''default'' None (ClassObj ex_UserSerializer) reg1
           = Inr (reg2, ClassObj ex_UserSerializer)"
    and m: "map_of (serializers reg2) ''default''
              = Some ((case map_of (serializers empty_registry) ''default'' of
                         None \<Rightarrow> [] | Some l \<Rightarrow> l) @ [ex_UserSerializer, ex_UserSerializer])"
    and i: "interfaces_of ex_mappings ''default'' [] [] reg2
              ((case map_of (serializers empty_registry) ''default'' of
                  None \<Rightarrow> [] | Some l \<Rightarrow> l) @ [ex_UserSerializer, ex_UserSerializer])
            = Inr (map (\<lambda>other. spec_render ex_mappings other ''default'' [] [] reg2)
                     (case map_of (serializers empty_registry) ''default'' of
                        None \<Rightarrow> [] | Some l \<Rightarrow> l)
                   @ [spec_render ex_mappings ex_UserSerializer ''default'' [] [] reg2,
                      spec_render ex_mappings ex_UserSerializer ''default'' [] [] reg2])"
    using double_registration_appends_twice
      [OF ex_user_facts(1), of "''default''" None empty_registry None ex_mappings "[]" "[]"]
    by blast
  have e1: "reg1 = ex_reg_user"
    using r1 ex_register_user_once by simp
  have e2: "reg2 = ex_reg_user_twice"
    using r2 ex_register_user_twice unfolding e1 by simp
  have b: "(case map_of (serializers empty_registry) ''default'' of
              None \<Rightarrow> [] | Some l \<Rightarrow> l) = ([] :: pyclass list)"
    by (simp add: empty_registry_def)
  show ?thesis
    using ex_user_facts(1) r1 r2 m i unfolding e1 e2 b by simp
qed

section \<open>Rendering\<close>

text \<open>
  Claim C10. A serializer class with no field is still rendered: the block has the
  interface line, the index-signature line with an empty union, \<open>[x: string]: ;\<close>, an empty
  field section and the closing brace; nothing is left out and no exception is raised.
  This holds in every context, so in particular for a schema registered by \<open>ts_interface\<close>.
\<close>

theorem empty_field_list_renders_empty_union:
  assumes "issubclass serializer DrfSerializer"
    and "serializer_fields serializer = []"
  shows "get_ts_interface mappings serializer context prefix suffix reg =
           Inr (''  export interface '' @ get_interface_name (cls_name serializer) prefix suffix
                @ '' {'' @ NL @ ''    [x: string]: ;'' @ NL @ NL @ ''  }'' @ NL @ NL)"
  using assms(2) by (simp add: get_ts_interface_def)

theorem empty_field_list_renders_empty_union_witness:
  "issubclass ex_EmptySerializer DrfSerializer
   \<and> serializer_fields ex_EmptySerializer = []
   \<and> ts_interface ''default'' None (ClassObj ex_EmptySerializer) empty_registry
       = Inr (ex_reg_empty_schema, ClassObj ex_EmptySerializer)
   \<and> registered_in ex_reg_empty_schema ''default'' ex_EmptySerializer
   \<and> get_ts_interface ex_mappings ex_EmptySerializer ''default'' [] [] ex_reg_empty_schema =
       Inr (''  export interface Empty {'' @ NL @ ''    [x: string]: ;'' @ NL @ NL @ ''  }''
            @ NL @ NL)"
proof -
  have s: "issubclass ex_EmptySerializer DrfSerializer"
    by (simp add: issubclass_def ex_EmptySerializer_def)
  have f: "serializer_fields ex_EmptySerializer = []"
    by (simp add: serializer_fields_def issubclass_def ex_EmptySerializer_def)
  have r: "ts_interface ''default'' None (ClassObj ex_EmptySerializer) empty_registry
             = Inr (ex_reg_empty_schema, ClassObj ex_EmptySerializer)"
    using s by (simp add: ts_interface_def empty_registry_def ex_reg_empty_schema_def)
  have m: "registered_in ex_reg_empty_schema ''default'' ex_EmptySerializer"
    by (simp add: registered_in_def ex_reg_empty_schema_def)
  have n: "get_interface_name (cls_name ex_EmptySerializer) [] [] = ''Empty''"
    by (simp add: ex_EmptySerializer_def get_interface_name_def re_sub_Serializer_def
        ends_with_def)
  have g: "get_ts_interface ex_mappings ex_EmptySerializer ''default'' [] [] ex_reg_empty_schema =
       Inr (''  export interface Empty {'' @ NL @ ''    [x: string]: ;'' @ NL @ NL @ ''  }''
            @ NL @ NL)"
    using empty_field_list_renders_empty_union
      [OF s f, of ex_mappings "''default''" "[]" "[]" ex_reg_empty_schema]
    unfolding n by simp
  show ?thesis
    using s f r m g by blast
qed

text \<open>
  Claim C6. In a context that is a key of \<open>__serializers\<close>, the types listed in the index
  signature of a rendered schema are the resolved types of its fields, in field order,
  each kept at its first occurrence only and joined by \<open>|\<close>. Resolved types A, B, A, C
  with A, B, C different give \<open>A | B | C\<close>.
\<close>

theorem index_signature_is_first_seen_union:
  assumes "map_of (serializers reg) context = Some ss"
  shows "list_all2 (\<lambda>(field_name, fld) ts_type.
             process_field mappings field_name fld context schema prefix suffix reg
               = Inr (field_name, ts_type))
           (serializer_fields schema)
           (spec_resolved_types mappings schema context prefix suffix reg)
         \<and> get_ts_interface mappings schema context prefix suffix reg
           = Inr (''  export interface '' @ get_interface_name (cls_name schema) prefix suffix
                  @ '' {'' @ NL
                  @ ''    [x: string]: ''
                  @ join '' | ''
                      (first_seen (spec_resolved_types mappings schema context prefix suffix reg))
                  @ '';'' @ NL
                  @ spec_field_lines mappings schema context prefix suffix reg @ NL
                  @ ''  }'' @ NL @ NL)
         \<and> (spec_resolved_types mappings schema context prefix suffix reg = [A, B, A, C] \<longrightarrow>
            A \<noteq> B \<longrightarrow> A \<noteq> C \<longrightarrow> B \<noteq> C \<longrightarrow>
              get_ts_interface mappings schema context prefix suffix reg
                = Inr (''  export interface '' @ get_interface_name (cls_name schema) prefix suffix
                       @ '' {'' @ NL
                       @ ''    [x: string]: '' @ A @ '' | '' @ B @ '' | '' @ C @ '';'' @ NL
                       @ spec_field_lines mappings schema context prefix suffix reg @ NL
                       @ ''  }'' @ NL @ NL))"
proof -
  have types: "list_all2 (\<lambda>(field_name, fld) ts_type.
             process_field mappings field_name fld context schema prefix suffix reg
               = Inr (field_name, ts_type))
           (serializer_fields schema)
           (spec_resolved_types mappings schema context prefix suffix reg)"
    by (simp add: spec_resolved_types_def list_all2_map2 process_field_registered[OF assms]
        list.rel_refl case_prod_unfold)
  have block: "get_ts_interface mappings schema context prefix suffix reg
           = Inr (''  export interface '' @ get_interface_name (cls_name schema) prefix suffix
                  @ '' {'' @ NL
                  @ ''    [x: string]: ''
                  @ join '' | ''
                      (first_seen (spec_resolved_types mappings schema context prefix suffix reg))
                  @ '';'' @ NL
                  @ spec_field_lines mappings schema context prefix suffix reg @ NL
                  @ ''  }'' @ NL @ NL)"
    by (simp add: get_ts_interface_registered[OF assms] spec_render_def spec_body_def
        spec_index_signature_def)
  have four: "A \<noteq> B \<Longrightarrow> A \<noteq> C \<Longrightarrow> B \<noteq> C \<Longrightarrow> first_seen [A, B, A, C] = [A, B, C]"
    by simp
  show ?thesis
    using types block four by simp
qed

theorem index_signature_is_first_seen_union_witness:
  "map_of (serializers ex_reg_user) ''default'' = Some [ex_UserSerializer]
   \<and> spec_resolved_types ex_mappings ex_QuadSerializer ''default'' [] [] ex_reg_user
       = [''number'', ''string'', ''number'', ''any'']
   \<and> get_ts_interface ex_mappings ex_QuadSerializer ''default'' [] [] ex_reg_user
       = Inr (''  export interface Quad {'' @ NL
              @ ''    [x: string]: number | string | any;'' @ NL
              @ ''    a: number;'' @ NL
              @ ''    b: string;'' @ NL
              @ ''    c: number;'' @ NL
              @ ''    d: any;'' @ NL
              @ ''  }'' @ NL @ NL)"
proof -
  have h: "map_of (serializers ex_reg_user) ''default'' = Some [ex_UserSerializer]"
    by (simp add: ex_reg_user_def)
  have f: "serializer_fields ex_QuadSerializer
             = [(''a'', Field ex_IntegerField None), (''b'', Field ex_CharField None),
                (''c'', Field ex_IntegerField None), (''d'', Field ex_ListField None)]"
    by (simp add: serializer_fields_def issubclass_def ex_QuadSerializer_def)
  have r: "spec_resolve ex_mappings n (Field ex_IntegerField None) ''default'' ex_QuadSerializer
             [] [] ex_reg_user = ''number''"
      "spec_resolve ex_mappings n (Field ex_CharField None) ''default'' ex_QuadSerializer
             [] [] ex_reg_user = ''string''"
      "spec_resolve ex_mappings n (Field ex_ListField None) ''default'' ex_QuadSerializer
             [] [] ex_reg_user = ''any''" for n
    by (simp_all add: spec_resolve_def spec_tiers_def base_kind_def array_suffix_def
        registered_in_def kind_override_def name_override_def dict_get_def default_context_def
        ex_reg_user_def ex_mappings_def ex_IntegerField_def ex_CharField_def ex_ListField_def
        ex_UserSerializer_def)
  have t: "spec_resolved_types ex_mappings ex_QuadSerializer ''default'' [] [] ex_reg_user
             = [''number'', ''string'', ''number'', ''any'']"
    by (simp add: spec_resolved_types_def f r)
  have l: "spec_field_lines ex_mappings ex_QuadSerializer ''default'' [] [] ex_reg_user
             = ''    a: number;'' @ NL @ ''    b: string;'' @ NL @ ''    c: number;'' @ NL
               @ ''    d: any;''"
    by (simp add: spec_field_lines_def spec_field_line_def f r)
  have n: "get_interface_name (cls_name ex_QuadSerializer) [] [] = ''Quad''"
    by (simp add: ex_QuadSerializer_def get_interface_name_def re_sub_Serializer_def
        ends_with_def)
  have d: "''number'' \<noteq> ''string''" "''number'' \<noteq> ''any''" "''string'' \<noteq> ''any''"
    by simp_all
  have "get_ts_interface ex_mappings ex_QuadSerializer ''default'' [] [] ex_reg_user
          = Inr (''  export interface '' @ get_interface_name (cls_name ex_QuadSerializer) [] []
                 @ '' {'' @ NL
                 @ ''    [x: string]: '' @ ''number'' @ '' | '' @ ''string'' @ '' | '' @ ''any''
                 @ '';'' @ NL
                 @ spec_field_lines ex_mappings ex_QuadSerializer ''default'' [] [] ex_reg_user
                 @ NL @ ''  }'' @ NL @ NL)"
    using index_signature_is_first_seen_union
      [OF h, of ex_mappings ex_QuadSerializer "[]" "[]" "''number''" "''string''" "''any''"]
      t d
    by blast
  then have "get_ts_interface ex_mappings ex_QuadSerializer ''default'' [] [] ex_reg_user
       = Inr (''  export interface Quad {'' @ NL
              @ ''    [x: string]: number | string | any;'' @ NL
              @ ''    a: number;'' @ NL
              @ ''    b: string;'' @ NL
              @ ''    c: number;'' @ NL
              @ ''    d: any;'' @ NL
              @ ''  }'' @ NL @ NL)"
    unfolding n l by simp
  with h t show ?thesis by blast
qed

section \<open>Emission\<close>

lemma contexts_loop_no_match:
  "\<not> all_contexts \<Longrightarrow> context \<notin> set ctxs \<Longrightarrow>
   contexts_loop mappings output_path context prefix suffix all_contexts reg ctxs fs = (None, fs)"
  by (induction ctxs) auto

text \<open>
  Claim C9. With \<open>all_contexts\<close> unset and a context that is no key of the registry,
  \<open>generate_ts\<close> raises nothing, provided the file can be opened; the file is opened for
  writing before the contexts are looked at, so whatever it held is gone: it ends empty,
  and no namespace block is written.
\<close>

theorem unmatched_filter_truncates_sink:
  assumes "can_open fs output_path"
    and "context \<notin> fst ` set (serializers reg)"
  shows "generate_ts mappings output_path context prefix suffix False reg fs =
           (None, fs\<lparr>files := (files fs)(output_path \<mapsto> [])\<rparr>)"
  using assms by (simp add: generate_ts_def contexts_loop_no_match)

theorem unmatched_filter_truncates_sink_witness:
  "can_open ex_fs ''out.ts''
   \<and> ''internal'' \<notin> fst ` set (serializers ex_reg_user)
   \<and> files ex_fs ''out.ts'' = Some ''stale''
   \<and> fst (generate_ts ex_mappings ''out.ts'' ''internal'' [] [] False ex_reg_user ex_fs) = None
   \<and> files (snd (generate_ts ex_mappings ''out.ts'' ''internal'' [] [] False ex_reg_user ex_fs))
        ''out.ts'' = Some []"
  using unmatched_filter_truncates_sink
    [of ex_fs "''out.ts''" "''internal''" ex_reg_user ex_mappings "[]" "[]"]
  by (simp add: ex_fs_def ex_reg_user_def)

text \<open>
  Claim C4. When the file can be opened, \<open>generate_ts\<close> raises nothing and leaves in the
  file one namespace block per selected context, in the order of the keys of
  \<open>__serializers\<close>, each with the blocks of the context's serializers in list order;
  \<open>ts_interface\<close> puts a new context last among the keys and a class last in the list of
  its context. For a serializer \<open>UserSerializer\<close> with a field \<open>id\<close> of a kind the table
  maps to \<open>number\<close> and a field \<open>tags\<close> whose child has a kind the table maps to \<open>string\<close>,
  registered alone in \<open>default\<close> without overrides, a call with the default arguments
  leaves in the file a newline and then the lines \<open>declare namespace default {\<close>, an empty
  line, \<open>export interface User {\<close>, \<open>[x: string]: number | string[];\<close>, \<open>id: number;\<close>,
  \<open>tags: string[];\<close>, the closing brace of the interface, an empty line, and the closing
  brace of the namespace, indented as the code writes them.
\<close>

theorem generate_ts_user_example:
  assumes "can_open fs output_path"
  shows "generate_ts mappings output_path context prefix suffix all_contexts reg fs
           = (None, fs\<lparr>files := (files fs)(output_path \<mapsto>
                      spec_emit mappings context prefix suffix all_contexts reg)\<rparr>)
         \<and> (issubclass schema DrfSerializer \<longrightarrow>
              (\<exists>reg'. ts_interface context overrides (ClassObj schema) reg
                         = Inr (reg', ClassObj schema)
                     \<and> map_of (serializers reg') context
                         = Some ((case map_of (serializers reg) context of
                                    None \<Rightarrow> [] | Some l \<Rightarrow> l) @ [schema])
                     \<and> (\<forall>c. c \<noteq> context \<longrightarrow>
                            map_of (serializers reg') c = map_of (serializers reg) c)
                     \<and> map fst (serializers reg')
                         = (if map_of (serializers reg) context = None
                            then map fst (serializers reg) @ [context]
                            else map fst (serializers reg))))
         \<and> (issubclass user DrfSerializer \<longrightarrow>
            cls_name user = ''UserSerializer'' \<longrightarrow>
            serializer_fields user
              = [(''id'', Field int_kind None),
                 (''tags'', Field coll (Some (Field str_kind ch)))] \<longrightarrow>
            mappings int_kind = Some ''number'' \<longrightarrow>
            mappings str_kind = Some ''string'' \<longrightarrow>
            int_kind \<noteq> user \<longrightarrow>
            str_kind \<noteq> user \<longrightarrow>
              (\<exists>reg1. ts_interface ''default'' None (ClassObj user) empty_registry
                         = Inr (reg1, ClassObj user)
                     \<and> generate_ts mappings output_path ''default'' [] [] False reg1 fs
                         = (None, fs\<lparr>files := (files fs)(output_path \<mapsto>
                              NL @ ''declare namespace default {'' @ NL @ NL
                              @ ''  export interface User {'' @ NL
                              @ ''    [x: string]: number | string[];'' @ NL
                              @ ''    id: number;'' @ NL
                              @ ''    tags: string[];'' @ NL
                              @ ''  }'' @ NL @ NL
                              @ ''}'')\<rparr>)))"
proof (intro conjI impI)
  show "generate_ts mappings output_path context prefix suffix all_contexts reg fs
           = (None, fs\<lparr>files := (files fs)(output_path \<mapsto>
                      spec_emit mappings context prefix suffix all_contexts reg)\<rparr>)"
    by (rule generate_ts_emits[OF assms])
next
  assume "issubclass schema DrfSerializer"
  then show "\<exists>reg'. ts_interface context overrides (ClassObj schema) reg
                         = Inr (reg', ClassObj schema)
                     \<and> map_of (serializers reg') context
                         = Some ((case map_of (serializers reg) context of
                                    None \<Rightarrow> [] | Some l \<Rightarrow> l) @ [schema])
                     \<and> (\<forall>c. c \<noteq> context \<longrightarrow>
                            map_of (serializers reg') c = map_of (serializers reg) c)
                     \<and> map fst (serializers reg')
                         = (if map_of (serializers reg) context = None
                            then map fst (serializers reg) @ [context]
                            else map fst (serializers reg))"
    by (rule ts_interface_serializers)
next
  assume a: "issubclass user DrfSerializer" "cls_name user = ''UserSerializer''"
    "serializer_fields user
       = [(''id'', Field int_kind None), (''tags'', Field coll (Some (Field str_kind ch)))]"
    "mappings int_kind = Some ''number''" "mappings str_kind = Some ''string''"
    "int_kind \<noteq> user" "str_kind \<noteq> user"
  note e = user_example_emit[OF a]
  show "\<exists>reg1. ts_interface ''default'' None (ClassObj user) empty_registry
                         = Inr (reg1, ClassObj user)
                     \<and> generate_ts mappings output_path ''default'' [] [] False reg1 fs
                         = (None, fs\<lparr>files := (files fs)(output_path \<mapsto>
                              NL @ ''declare namespace default {'' @ NL @ NL
                              @ ''  export interface User {'' @ NL
                              @ ''    [x: string]: number | string[];'' @ NL
                              @ ''    id: number;'' @ NL
                              @ ''    tags: string[];'' @ NL
                              @ ''  }'' @ NL @ NL
                              @ ''}'')\<rparr>)"
    using e(1) generate_ts_emits[OF assms, of mappings "''default''" "[]" "[]" False
        "empty_registry\<lparr>serializers := [(''default'', [user])]\<rparr>"]
    unfolding e(2) by blast
qed

theorem generate_ts_user_example_witness:
  "can_open ex_fs ''out.ts''
   \<and> issubclass ex_UserSerializer DrfSerializer
   \<and> cls_name ex_UserSerializer = ''UserSerializer''
   \<and> serializer_fields ex_UserSerializer
       = [(''id'', Field ex_IntegerField None),
          (''tags'', Field ex_ListField (Some (Field ex_CharField None)))]
   \<and> ex_mappings ex_IntegerField = Some ''number''
   \<and> ex_mappings ex_CharField = Some ''string''
   \<and> ex_IntegerField \<noteq> ex_UserSerializer
   \<and> ex_CharField \<noteq> ex_UserSerializer
   \<and> ts_interface ''default'' None (ClassObj ex_UserSerializer) empty_registry
       = Inr (ex_reg_user, ClassObj ex_UserSerializer)
   \<and> generate_ts ex_mappings ''out.ts'' ''default'' [] [] False ex_reg_user ex_fs
       = (None, ex_fs\<lparr>files := (files ex_fs)(''out.ts'' \<mapsto>
            NL @ ''declare namespace default {'' @ NL @ NL
            @ ''  export interface User {'' @ NL
            @ ''    [x: string]: number | string[];'' @ NL
            @ ''    id: number;'' @ NL
            @ ''    tags: string[];'' @ NL
            @ ''  }'' @ NL @ NL
            @ ''}'')\<rparr>)"
proof -
  have o: "can_open ex_fs ''out.ts''"
    by (simp add: ex_fs_def)
  obtain reg1 where
    r: "ts_interface ''default'' None (ClassObj ex_UserSerializer) empty_registry
          = Inr (reg1, ClassObj ex_UserSerializer)"
    and g: "generate_ts ex_mappings ''out.ts'' ''default'' [] [] False reg1 ex_fs
       = (None, ex_fs\<lparr>files := (files ex_fs)(''out.ts'' \<mapsto>
            NL @ ''declare namespace default {'' @ NL @ NL
            @ ''  export interface User {'' @ NL
            @ ''    [x: string]: number | string[];'' @ NL
            @ ''    id: number;'' @ NL
            @ ''    tags: string[];'' @ NL
            @ ''  }'' @ NL @ NL
            @ ''}'')\<rparr>)"
    using generate_ts_user_example
      [OF o, of ex_mappings "''default''" "[]" "[]" False empty_registry ex_UserSerializer None
         ex_UserSerializer ex_IntegerField ex_ListField ex_CharField None]
      ex_user_facts
    by blast
  have "reg1 = ex_reg_user"
    using r ex_register_user_once by simp
  then show ?thesis
    using o ex_user_facts r g by blast
qed

end
